theory Spec2Isabelle
  imports Complex_Main "HOL-Library.AList" "HOL-Library.Multiset"
begin

section \<open>The data of the program\<close>

text \<open>
  The program keeps two texts in localStorage: the rate log under the key
  \<^verbatim>\<open>generation_history\<close> (services/rateLimitService.ts) and the legacy session history
  under \<^verbatim>\<open>flashback_history\<close> (App.tsx). Both are read back with \<^verbatim>\<open>JSON.parse\<close>.
  A stored text is modelled by what \<^verbatim>\<open>JSON.parse\<close> does with it: it is the empty string
  (falsy in JavaScript), a text on which \<^verbatim>\<open>JSON.parse\<close> throws a SyntaxError, or a text
  that parses to a value.

  Numbers are mathematical integers: \<^verbatim>\<open>Date.now()\<close> yields integral milliseconds, and
  the arithmetic of the service is exact on IEEE doubles below \<open>2 ^ 53\<close>. JSON arrays of
  the rate log hold such numbers; arrays with other elements are outside the model.
  \<open>JObject\<close> stands for any JSON object: the service only ever calls \<^verbatim>\<open>push\<close> and
  \<^verbatim>\<open>filter\<close> on the parsed value, and a parsed object has neither as a function.
\<close>

datatype json = JNull | JBool bool | JNumber int | JString string | JArray "int list" | JObject

datatype 'a stored_text = Empty_Text | Unparsable_Text | Parses_To 'a

datatype js_error = TypeError

text \<open>
  The result of one decade (App.tsx, \<^verbatim>\<open>GeneratedImage\<close>), and a JavaScript object keyed by
  decade as the list of its entries in insertion order: \<^verbatim>\<open>obj[k]\<close> is \<open>map_of\<close>, and both
  \<^verbatim>\<open>obj[k] = v\<close> and the spread \<^verbatim>\<open>{...obj, [k]: v}\<close> are \<open>AList.update k v\<close>, which replaces
  the value of a key in place and appends a new key at the end.
\<close>

datatype ImageStatus = Pending | Done | Error

record GeneratedImage =
  status :: ImageStatus
  url :: "string option"
  error :: "string option"

type_synonym images = "(string \<times> GeneratedImage) list"

datatype stage = idle | image_uploaded | generating | results_shown

text \<open>A session as the history keeps it (components/HistorySidebar.tsx, \<^verbatim>\<open>HistoryItem\<close>).\<close>

record HistoryItem =
  item_id :: string
  timestamp :: int
  originalImage :: string
  aspectRatio :: "rat option"
  item_selectedDecades :: "string list"
  item_generatedImages :: images
  item_appState :: stage

text \<open>localStorage, with a slot for each of the two keys; \<open>None\<close> is an absent key.\<close>

record localStorage =
  generation_history :: "json stored_text option"
  flashback_history :: "HistoryItem list stored_text option"

section \<open>services/rateLimitService.ts\<close>

text \<open>
  \<^verbatim>\<open>import.meta.env\<close>: each variable after \<^verbatim>\<open>Number(...)\<close>; \<open>None\<close> is NaN (the variable
  is undefined or its text is not numeric).
\<close>

record env =
  VITE_MAX_PHOTOS :: "int option"
  VITE_LIMIT_MINUTES :: "int option"

text \<open>\<^verbatim>\<open>Number(x) || d\<close>: NaN and 0 are falsy.\<close>

definition number_or :: "int option \<Rightarrow> int \<Rightarrow> int" where
  "number_or x d = (case x of None \<Rightarrow> d | Some n \<Rightarrow> if n = 0 then d else n)"

record limit_result =
  allowed :: bool
  remaining :: int
  resetInMinutes :: int
  resetAt :: int
  maxPhotos :: int
  limitMinutes :: int

text \<open>
  \<^verbatim>\<open>getHistory\<close>: the \<^verbatim>\<open>try\<close> block returns \<^verbatim>\<open>[]\<close> for a missing key (\<^verbatim>\<open>getItem\<close> gives
  \<^verbatim>\<open>null\<close>) and for the empty string, the \<^verbatim>\<open>catch\<close> block returns \<^verbatim>\<open>[]\<close> when
  \<^verbatim>\<open>JSON.parse\<close> throws, and otherwise the parsed value is returned as it is.
  STORAGE_KEY is \<^verbatim>\<open>'generation_history'\<close>. Each function of the service returns the
  storage it leaves behind together with its value.
\<close>

definition getHistory :: "localStorage \<Rightarrow> json \<times> localStorage" where
  "getHistory ls =
     (case generation_history ls of
        None \<Rightarrow> (JArray [], ls)
      | Some Empty_Text \<Rightarrow> (JArray [], ls)
      | Some Unparsable_Text \<Rightarrow> (JArray [], ls)
      | Some (Parses_To v) \<Rightarrow> (v, ls))"

text \<open>\<^verbatim>\<open>Math.ceil(a / b)\<close> on integers, for a positive divisor.\<close>

definition Math_ceil_div :: "int \<Rightarrow> int \<Rightarrow> int" where
  "Math_ceil_div a b = - ((- a) div b)"

text \<open>
  \<^verbatim>\<open>checkLimit\<close>, with the clock reading \<^verbatim>\<open>Date.now()\<close> as the argument \<open>now\<close>. Calling \<^verbatim>\<open>filter\<close> on a parsed value that is not an array throws a
  TypeError. \<^verbatim>\<open>activeHistory[0]\<close> is read only where the array is not empty.
\<close>

definition checkLimit ::
  "env \<Rightarrow> int \<Rightarrow> int \<Rightarrow> localStorage \<Rightarrow> (js_error + limit_result) \<times> localStorage" where
  "checkLimit e now requestedCount ls =
     (let maxPhotos' = number_or (VITE_MAX_PHOTOS e) 10;
          limitMinutes' = number_or (VITE_LIMIT_MINUTES e) 5;
          windowMs = limitMinutes' * 60 * 1000
      in case getHistory ls of
           (JArray history, ls1) \<Rightarrow>
             (let activeHistory = filter (\<lambda>ts. now - ts < windowMs) history;
                  currentCount = int (length activeHistory);
                  allowed' = (currentCount + requestedCount \<le> maxPhotos');
                  remaining' = max 0 (maxPhotos' - currentCount)
              in (Inr \<lparr>allowed = allowed', remaining = remaining',
                       resetInMinutes =
                         (if \<not> allowed' \<and> length activeHistory > 0
                          then Math_ceil_div (windowMs - (now - hd activeHistory)) (60 * 1000)
                          else 0),
                       resetAt =
                         (if \<not> allowed' \<and> length activeHistory > 0
                          then hd activeHistory + windowMs
                          else 0),
                       maxPhotos = maxPhotos', limitMinutes = limitMinutes'\<rparr>,
                  ls1))
         | (_, ls1) \<Rightarrow> (Inl TypeError, ls1))"

text \<open>
  \<^verbatim>\<open>recordGeneration(count)\<close>, with \<open>n\<close> for \<^verbatim>\<open>count\<close>: \<open>n\<close> pushes of the current time,
  the filter on the window, and the one \<^verbatim>\<open>localStorage.setItem\<close> of the service, which stores the text of
  \<^verbatim>\<open>JSON.stringify(filteredHistory)\<close>. On a parsed value that is not an array, \<^verbatim>\<open>push\<close>
  (or \<^verbatim>\<open>filter\<close>, when \<open>n \<le> 0\<close>) throws before anything is written.
\<close>

definition recordGeneration ::
  "env \<Rightarrow> int \<Rightarrow> int \<Rightarrow> localStorage \<Rightarrow> (js_error + unit) \<times> localStorage" where
  "recordGeneration e now n ls =
     (case getHistory ls of
        (JArray history, ls1) \<Rightarrow>
          (let pushed = history @ replicate (nat n) now;
               limitMinutes' = number_or (VITE_LIMIT_MINUTES e) 5;
               windowMs = limitMinutes' * 60 * 1000;
               filteredHistory = filter (\<lambda>ts. now - ts < windowMs) pushed
           in (Inr (), ls1\<lparr>generation_history := Some (Parses_To (JArray filteredHistory))\<rparr>))
      | (_, ls1) \<Rightarrow> (Inl TypeError, ls1))"

section \<open>services/dbService.ts\<close>

text \<open>
  Modelled from the spec: services/dbService.ts is not among the sources; App.tsx only
  calls it. The spec (4.2) gives its contract: upsert a session record keyed by session
  identifier; list all records ordered newest-first; delete by identifier. The store is
  the list of its (identifier, record) entries. The three definitions below say what a
  call does when it resolves. A call may also reject (spec 7(c), persistence errors, and
  the \<^verbatim>\<open>catch\<close> blocks of App.tsx); a rejected call leaves the store as it is.
\<close>

type_synonym db = "(string \<times> HistoryItem) list"

text \<open>Modelled from the spec: \<^verbatim>\<open>dbService.saveHistoryItem\<close>, the upsert keyed by the identifier.\<close>

definition saveHistoryItem :: "HistoryItem \<Rightarrow> db \<Rightarrow> db" where
  "saveHistoryItem item store = AList.update (item_id item) item store"

text \<open>Modelled from the spec: \<^verbatim>\<open>dbService.getAllHistory\<close>, all records, newest first.\<close>

definition getAllHistory :: "db \<Rightarrow> HistoryItem list" where
  "getAllHistory store = rev (sort_key timestamp (map snd store))"

text \<open>Modelled from the spec: \<^verbatim>\<open>dbService.deleteHistoryItem\<close>, delete by identifier.\<close>

definition deleteHistoryItem :: "string \<Rightarrow> db \<Rightarrow> db" where
  "deleteHistoryItem i store = AList.delete i store"

section \<open>App.tsx\<close>

subsection \<open>The state of the component and what lies around it\<close>

record App_state =
  uploadedImage :: "string option"
  imageAspectRatio :: rat
  generatedImages :: images
  isLoading :: bool
  isDownloading :: bool
  appState :: stage
  selectedDecades :: "string list"
  selectedImage :: "(string \<times> string) option"
  history :: "HistoryItem list"
  isHistoryOpen :: bool
  currentSessionId :: "string option"

text \<open>
  A handler of the component changes the React state, localStorage and the keyed store,
  and it talks to the user and to the outside: console lines, alerts, files offered for
  download (\<^verbatim>\<open>href\<close> and file name) and requests sent to \<^verbatim>\<open>generateDecadeImage\<close> (image
  and prompt). All of it is one record, passed through every handler. \<open>db_saves\<close> lists
  the records handed to \<^verbatim>\<open>dbService.saveHistoryItem\<close>, in call order. The requests are a
  multiset: the handlers start them on timers, and nothing below rests on their order.
  Whether a call of the store resolves is not in the hands of the component: \<open>db_faults\<close>
  says of the calls to come, in order, whether the call rejects; once the list is used
  up, every call resolves.
\<close>

record world =
  app :: App_state
  storage :: localStorage
  database :: db
  db_saves :: "HistoryItem list"
  db_faults :: "bool list"
  console :: "string list"
  alerts :: "string list"
  downloads :: "(string \<times> string) list"
  requests :: "(string \<times> string) multiset"

text \<open>JavaScript truthiness of a string that may be \<^verbatim>\<open>null\<close> or \<^verbatim>\<open>undefined\<close>.\<close>

definition truthy :: "string option \<Rightarrow> bool" where
  "truthy x = (case x of None \<Rightarrow> False | Some t \<Rightarrow> t \<noteq> [])"

text \<open>\<^verbatim>\<open>Date.now().toString()\<close>: the decimal digits of an integer.\<close>

fun decimal :: "nat \<Rightarrow> string" where
  "decimal n =
     (if n < 10 then [''0123456789'' ! n]
      else decimal (n div 10) @ [''0123456789'' ! (n mod 10)])"

declare decimal.simps [simp del]

definition toString :: "int \<Rightarrow> string" where
  "toString i = (if i < 0 then CHR ''-'' # decimal (nat (- i)) else decimal (nat i))"

text \<open>
  What one call of \<^verbatim>\<open>generateDecadeImage\<close> (services/geminiService, an external API) ends
  with: it resolves with the URL of an image, or it rejects with an \<^verbatim>\<open>Error\<close> carrying a
  message, or with some other value.
\<close>

datatype call_result = Resolved string | Rejected_Error string | Rejected_Other

definition prompt_of :: "string \<Rightarrow> string" where
  "prompt_of decade =
     ''Reimagine the person in this photo in the style of the '' @ decade @
     ''. This includes clothing, hairstyle, photo quality, and the overall aesthetic of that decade. The output must be a photorealistic image showing the person clearly.''"

definition pendingImage :: GeneratedImage where
  "pendingImage = \<lparr>status = Pending, url = None, error = None\<rparr>"

text \<open>The entry that the \<^verbatim>\<open>try\<close> and the \<^verbatim>\<open>catch\<close> block write for a settled call.\<close>

definition settledImage :: "call_result \<Rightarrow> GeneratedImage" where
  "settledImage r =
     (case r of
        Resolved resultUrl \<Rightarrow> \<lparr>status = Done, url = Some resultUrl, error = None\<rparr>
      | Rejected_Error message \<Rightarrow> \<lparr>status = Error, url = None, error = Some message\<rparr>
      | Rejected_Other \<Rightarrow>
          \<lparr>status = Error, url = None, error = Some ''An unknown error occurred.''\<rparr>)"

text \<open>\<^verbatim>\<open>setGeneratedImages(prev => ({...prev, [decade]: image}))\<close>\<close>

definition setGeneratedImage :: "string \<Rightarrow> GeneratedImage \<Rightarrow> world \<Rightarrow> world" where
  "setGeneratedImage decade entry w =
     w\<lparr>app := (app w)\<lparr>generatedImages := AList.update decade entry (generatedImages (app w))\<rparr>\<rparr>"

subsection \<open>Generation\<close>

text \<open>
  \<^verbatim>\<open>processDecade(decade, index)\<close> inside \<^verbatim>\<open>handleGenerateClick\<close>: after its delay the call
  is sent with the uploaded image, and when it settles with \<open>r\<close> the entry of \<open>decade\<close> is
  written; the \<^verbatim>\<open>catch\<close> block also prints a console line. The function never rejects.
\<close>

definition processDecade :: "string \<Rightarrow> string \<times> call_result \<Rightarrow> world \<Rightarrow> world" where
  "processDecade photo c w =
     (case c of (decade, r) \<Rightarrow>
        (let w1 = w\<lparr>requests := requests w + {#(photo, prompt_of decade)#}\<rparr>;
             w2 = setGeneratedImage decade (settledImage r) w1
         in case r of
              Resolved _ \<Rightarrow> w2
            | _ \<Rightarrow> w2\<lparr>console := console w2 @ [''Failed to generate image for '' @ decade @ '':'']\<rparr>))"

text \<open>
  \<^verbatim>\<open>handleGenerateClick\<close>, run until \<^verbatim>\<open>Promise.all\<close> has resolved. \<open>now\<close> is the clock
  reading. \<open>settled\<close> lists the calls in the order in which they settle, each with its
  decade and its result: the order is the API's, so it is an argument, and so is every
  result. One call is made for each position of \<open>selectedDecades\<close>, so \<open>settled\<close> holds
  the selected decades, each as often as it is selected, in some order.
\<close>

definition handleGenerateClick :: "int \<Rightarrow> (string \<times> call_result) list \<Rightarrow> world \<Rightarrow> world" where
  "handleGenerateClick now settled w =
     (case uploadedImage (app w) of
        None \<Rightarrow> w
      | Some photo \<Rightarrow>
          if photo = [] \<or> length (selectedDecades (app w)) = 0 then w
          else
            (let initialImages =
                   fold (\<lambda>decade acc. AList.update decade pendingImage acc)
                     (selectedDecades (app w)) [];
                 w1 = w\<lparr>app := (app w)\<lparr>isLoading := True, appState := generating,
                          currentSessionId := Some (toString now),
                          generatedImages := initialImages\<rparr>\<rparr>;
                 w2 = fold (processDecade photo) settled w1
             in w2\<lparr>app := (app w2)\<lparr>isLoading := False, appState := results_shown\<rparr>\<rparr>))"

text \<open>
  \<^verbatim>\<open>handleRegenerateDecade(decade)\<close>, run until its call has settled with \<open>r\<close>. The two
  guards return before anything is done.
\<close>

definition handleRegenerateDecade :: "call_result \<Rightarrow> string \<Rightarrow> world \<Rightarrow> world" where
  "handleRegenerateDecade r decade w =
     (case uploadedImage (app w) of
        None \<Rightarrow> w
      | Some photo \<Rightarrow>
          if photo = [] then w
          else if (case map_of (generatedImages (app w)) decade of
                     None \<Rightarrow> False
                   | Some g \<Rightarrow> status g = Pending) then w
          else
            (let w1 = w\<lparr>console := console w @ [''Regenerating image for '' @ decade @ ''...'']\<rparr>;
                 w2 = setGeneratedImage decade pendingImage w1;
                 w3 = w2\<lparr>requests := requests w2 + {#(photo, prompt_of decade)#}\<rparr>;
                 w4 = setGeneratedImage decade (settledImage r) w3
             in case r of
                  Resolved _ \<Rightarrow> w4
                | _ \<Rightarrow> w4\<lparr>console := console w4 @
                           [''Failed to regenerate image for '' @ decade @ '':'']\<rparr>))"



text \<open>
  \<^verbatim>\<open>handleRegenerateDecade\<close> up to its \<^verbatim>\<open>await\<close>: \<open>None\<close> when one of the guards returns,
  otherwise the world with the entry set to \<^verbatim>\<open>'pending'\<close> and the call sent. And its rest,
  run when the call settles with \<open>r\<close>.
\<close>

definition handleRegenerateDecade_begin :: "string \<Rightarrow> world \<Rightarrow> world option" where
  "handleRegenerateDecade_begin decade w =
     (case uploadedImage (app w) of
        None \<Rightarrow> None
      | Some photo \<Rightarrow>
          if photo = [] then None
          else if (case map_of (generatedImages (app w)) decade of
                     None \<Rightarrow> False
                   | Some g \<Rightarrow> status g = Pending) then None
          else
            (let w1 = w\<lparr>console := console w @ [''Regenerating image for '' @ decade @ ''...'']\<rparr>;
                 w2 = setGeneratedImage decade pendingImage w1
             in Some (w2\<lparr>requests := requests w2 + {#(photo, prompt_of decade)#}\<rparr>)))"

definition handleRegenerateDecade_settled :: "call_result \<Rightarrow> string \<Rightarrow> world \<Rightarrow> world" where
  "handleRegenerateDecade_settled r decade w =
     (let w4 = setGeneratedImage decade (settledImage r) w
      in case r of
           Resolved _ \<Rightarrow> w4
         | _ \<Rightarrow> w4\<lparr>console := console w4 @
                    [''Failed to regenerate image for '' @ decade @ '':'']\<rparr>)"




subsection \<open>Album download\<close>

text \<open>
  The \<^verbatim>\<open>filter\<close> and \<^verbatim>\<open>reduce\<close> over \<^verbatim>\<open>Object.entries(generatedImages)\<close>: the object of the
  URLs of the entries with status \<^verbatim>\<open>'done'\<close> and a truthy \<^verbatim>\<open>url\<close>.
\<close>

definition imageData_of :: "images \<Rightarrow> (string \<times> string) list" where
  "imageData_of imgs =
     fold (\<lambda>(decade, g) acc. case url g of Some u \<Rightarrow> AList.update decade u acc | None \<Rightarrow> acc)
       (filter (\<lambda>(decade, g). status g = Done \<and> truthy (url g)) imgs) []"

text \<open>
  \<^verbatim>\<open>handleDownloadAlbum\<close>. \<^verbatim>\<open>createAlbumPage\<close> (lib/albumUtils) is not among the sources:
  it is an argument, giving for the object it is called with the data URL it resolves
  with, or \<open>None\<close> when it rejects. \<^verbatim>\<open>Object.keys(imageData).length\<close> is the length of the
  entry list. The \<^verbatim>\<open>finally\<close> block runs on every path.
\<close>

definition handleDownloadAlbum ::
  "((string \<times> string) list \<Rightarrow> string option) \<Rightarrow> world \<Rightarrow> world" where
  "handleDownloadAlbum createAlbumPage w =
     (let w1 = w\<lparr>app := (app w)\<lparr>isDownloading := True\<rparr>\<rparr>;
          imageData = imageData_of (generatedImages (app w1));
          w2 =
            (if length imageData < length (selectedDecades (app w1))
             then w1\<lparr>alerts := alerts w1 @
                    [''Please wait for all images to finish generating before downloading the album.'']\<rparr>
             else
               (case createAlbumPage imageData of
                  Some albumDataUrl \<Rightarrow>
                    w1\<lparr>downloads := downloads w1 @ [(albumDataUrl, ''past-forward-album.jpg'')]\<rparr>
                | None \<Rightarrow>
                    w1\<lparr>console := console w1 @ [''Failed to create or download album:''],
                       alerts := alerts w1 @
                         [''Sorry, there was an error creating your album. Please try again.'']\<rparr>))
      in w2\<lparr>app := (app w2)\<lparr>isDownloading := False\<rparr>\<rparr>)"

subsection \<open>History\<close>

text \<open>
  One \<^verbatim>\<open>await dbService.saveHistoryItem(item)\<close>: the call is made, and it resolves (the
  record is in the store) or rejects (the store is as before). The result says which.
\<close>

definition await_saveHistoryItem :: "HistoryItem \<Rightarrow> world \<Rightarrow> bool \<times> world" where
  "await_saveHistoryItem item w =
     (let rejects = (case db_faults w of [] \<Rightarrow> False | fault # _ \<Rightarrow> fault);
          w1 = w\<lparr>db_saves := db_saves w @ [item], db_faults := drop 1 (db_faults w)\<rparr>
      in if rejects then (False, w1)
         else (True, w1\<lparr>database := saveHistoryItem item (database w1)\<rparr>))"

text \<open>
  The loop \<^verbatim>\<open>for (const item of legacyHistory) await dbService.saveHistoryItem(item)\<close> of
  \<^verbatim>\<open>initHistory\<close>: the records are saved in order; the first rejected save throws out of the
  loop. The result says whether the loop ran to its end.
\<close>

fun migrate :: "HistoryItem list \<Rightarrow> world \<Rightarrow> bool \<times> world" where
  "migrate [] w = (True, w)"
| "migrate (item # items) w =
     (case await_saveHistoryItem item w of
        (True, w1) \<Rightarrow> migrate items w1
      | (False, w1) \<Rightarrow> (False, w1))"

text \<open>
  \<^verbatim>\<open>initHistory\<close>, the effect run on mount. A missing key and the empty string are falsy
  and skip the migration. When \<^verbatim>\<open>JSON.parse\<close> throws, or when a save is rejected, the
  \<^verbatim>\<open>catch\<close> block prints a line and the legacy text stays. When every record has been
  saved, the legacy key is removed and a line is printed. Then the list of the component
  is loaded from the store; when \<^verbatim>\<open>getAllHistory\<close> rejects, the second \<^verbatim>\<open>catch\<close> block prints
  a line and the list stays as it is.
\<close>

definition initHistory :: "world \<Rightarrow> world" where
  "initHistory w =
     (let w1 =
            (case flashback_history (storage w) of
               None \<Rightarrow> w
             | Some Empty_Text \<Rightarrow> w
             | Some Unparsable_Text \<Rightarrow> w\<lparr>console := console w @ [''Failed to migrate history'']\<rparr>
             | Some (Parses_To legacyHistory) \<Rightarrow>
                 (case migrate legacyHistory w of
                    (True, w') \<Rightarrow>
                      w'\<lparr>storage := (storage w')\<lparr>flashback_history := None\<rparr>,
                         console := console w' @
                           [''Migrated history from localStorage to IndexedDB'']\<rparr>
                  | (False, w') \<Rightarrow>
                      w'\<lparr>console := console w' @ [''Failed to migrate history'']\<rparr>));
          rejects = (case db_faults w1 of [] \<Rightarrow> False | fault # _ \<Rightarrow> fault);
          w2 = w1\<lparr>db_faults := drop 1 (db_faults w1)\<rparr>
      in if rejects
         then w2\<lparr>console := console w2 @ [''Failed to load history from IndexedDB'']\<rparr>
         else w2\<lparr>app := (app w2)\<lparr>history := getAllHistory (database w2)\<rparr>\<rparr>)"

text \<open>
  The auto-save effect, run after a render with the clock reading \<open>now\<close>: under its guard
  it builds \<^verbatim>\<open>newItem\<close>, the record of the current session, puts it in front of the list of the
  component in place of every record with the same identifier, keeps twenty records, and
  saves the record in the store; the \<^verbatim>\<open>catch\<close> of a rejected save prints a line.
\<close>

definition newItem :: "string \<Rightarrow> int \<Rightarrow> string \<Rightarrow> App_state \<Rightarrow> HistoryItem" where
  "newItem sid now photo s =
     \<lparr>item_id = sid, timestamp = now, originalImage = photo,
      aspectRatio = Some (imageAspectRatio s),
      item_selectedDecades = selectedDecades s,
      item_generatedImages = generatedImages s,
      item_appState = appState s\<rparr>"

definition autoSave :: "int \<Rightarrow> world \<Rightarrow> world" where
  "autoSave now w =
     (case (uploadedImage (app w), currentSessionId (app w)) of
        (Some photo, Some sid) \<Rightarrow>
          if appState (app w) \<noteq> idle \<and> photo \<noteq> [] \<and> sid \<noteq> [] then
            (let w1 = w\<lparr>app := (app w)\<lparr>history :=
                         take 20 (newItem sid now photo (app w) #
                                  filter (\<lambda>item. item_id item \<noteq> sid) (history (app w)))\<rparr>\<rparr>
             in case await_saveHistoryItem (newItem sid now photo (app w)) w1 of
                  (True, w2) \<Rightarrow> w2
                | (False, w2) \<Rightarrow>
                    w2\<lparr>console := console w2 @ [''Failed to save session to IndexedDB'']\<rparr>)
          else w
      | _ \<Rightarrow> w)"

text \<open>
  \<^verbatim>\<open>handleSelectHistoryItem\<close>: a click on a record of the history sidebar loads the
  session of the record into the component. \<^verbatim>\<open>item.aspectRatio || 0.75\<close> takes the default
  for a missing ratio and for 0.
\<close>

definition handleSelectHistoryItem :: "HistoryItem \<Rightarrow> world \<Rightarrow> world" where
  "handleSelectHistoryItem item w =
     w\<lparr>app := (app w)\<lparr>uploadedImage := Some (originalImage item),
            imageAspectRatio :=
              (case aspectRatio item of None \<Rightarrow> 3 / 4 | Some a \<Rightarrow> if a = 0 then 3 / 4 else a),
            selectedDecades := item_selectedDecades item,
            generatedImages := item_generatedImages item,
            appState := item_appState item,
            currentSessionId := Some (item_id item),
            isHistoryOpen := False\<rparr>\<rparr>"

section \<open>Notions used in the statements\<close>

text \<open>
  The state of the component at mount (the initial values of its \<^verbatim>\<open>useState\<close> calls), in
  a browser with empty storage, an empty store whose calls all resolve, and nothing
  printed, shown or requested.
\<close>

definition initial_App_state :: App_state where
  "initial_App_state =
     \<lparr>uploadedImage = None, imageAspectRatio = 3 / 4, generatedImages = [],
      isLoading = False, isDownloading = False, appState = idle,
      selectedDecades = [''1950s'', ''1960s'', ''1970s'', ''1980s'', ''1990s'', ''2000s''],
      selectedImage = None, history = [], isHistoryOpen = False, currentSessionId = None\<rparr>"

definition initial_world :: world where
  "initial_world =
     \<lparr>app = initial_App_state,
      storage = \<lparr>generation_history = None, flashback_history = None\<rparr>,
      database = [], db_saves = [], db_faults = [], console = [], alerts = [], downloads = [],
      requests = {#}\<rparr>"

definition is_array :: "json \<Rightarrow> bool" where
  "is_array v = (case v of JArray _ \<Rightarrow> True | _ \<Rightarrow> False)"

text \<open>A decade has a completed result: an entry with status \<^verbatim>\<open>'done'\<close> and a truthy URL.\<close>

definition completed :: "images \<Rightarrow> string \<Rightarrow> bool" where
  "completed imgs decade =
     (case map_of imgs decade of
        None \<Rightarrow> False
      | Some g \<Rightarrow> status g = Done \<and> truthy (url g))"






section \<open>The rate gauge\<close>

lemma Math_ceil_div_ceiling: "Math_ceil_div a b = \<lceil>real_of_int a / real_of_int b\<rceil>"
  by (simp add: Math_ceil_div_def ceiling_divide_eq_div)

lemma hd_filter_sorted_Min:
  assumes "sorted xs" and "filter P xs \<noteq> []"
  shows "hd (filter P xs) = Min (set (filter P xs))"
proof -
  obtain y ys where e: "filter P xs = y # ys"
    using assms(2) by (cases "filter P xs") auto
  have "sorted (y # ys)"
    using assms(1) e sorted_wrt_filter [of "(\<le>)" xs P] by simp
  then have "\<forall>z \<in> set ys. y \<le> z" by simp
  then have "Min (set (y # ys)) = y"
    by (intro Min_eqI) auto
  then show ?thesis using e by simp
qed




text \<open>
  C4, as the claim states it, fails on a log that is not in chronological order:
  \<^verbatim>\<open>checkLimit\<close> takes \<^verbatim>\<open>activeHistory[0]\<close>, the first active entry of the log. Two calls of
  \<^verbatim>\<open>recordGeneration\<close>, the second under a clock that was set back, leave the log
  \<open>[100000, 50000]\<close>. At time \<open>200000\<close>, with a window of 5 minutes and a ceiling of 1,
  \<^verbatim>\<open>checkLimit(1)\<close> then reports 4 minutes, where the oldest active timestamp, \<open>50000\<close>,
  leaves the window after \<open>\<lceil>150000 / 60000\<rceil> = 3\<close> minutes.
\<close>

theorem checkLimit_resetInMinutes_counterexample:
  "snd (recordGeneration \<lparr>VITE_MAX_PHOTOS = Some 1, VITE_LIMIT_MINUTES = Some 5\<rparr> 50000 1
     (snd (recordGeneration \<lparr>VITE_MAX_PHOTOS = Some 1, VITE_LIMIT_MINUTES = Some 5\<rparr> 100000 1
        \<lparr>generation_history = None, flashback_history = None\<rparr>)))
     = \<lparr>generation_history = Some (Parses_To (JArray [100000, 50000])), flashback_history = None\<rparr>
   \<and> fst (checkLimit \<lparr>VITE_MAX_PHOTOS = Some 1, VITE_LIMIT_MINUTES = Some 5\<rparr> 200000 1
         \<lparr>generation_history = Some (Parses_To (JArray [100000, 50000])), flashback_history = None\<rparr>)
       = Inr \<lparr>allowed = False, remaining = 0, resetInMinutes = 4, resetAt = 400000,
              maxPhotos = 1, limitMinutes = 5\<rparr>
   \<and> Min (set (filter (\<lambda>ts. 200000 - ts < 5 * 60 * 1000) [100000, 50000 :: int])) = 50000
   \<and> \<lceil>real_of_int (5 * 60 * 1000 - (200000 - 50000)) / 60000\<rceil> = 3"
  by (simp add: recordGeneration_def checkLimit_def getHistory_def number_or_def Math_ceil_div_def)

text \<open>
  C4, amended. When the request is allowed, \<open>resetInMinutes\<close> is 0. When it is not
  allowed and the log has an active entry, \<open>resetInMinutes\<close> is the number of minutes,
  rounded up, until the first active entry of the log leaves the window; and in a log in
  chronological order (as \<^verbatim>\<open>recordGeneration\<close> appends to it under a clock that does not
  run backwards) that entry is the oldest active timestamp.
\<close>

theorem checkLimit_resetInMinutes:
  assumes "fst (getHistory ls) = JArray tlog"
    and "windowMs = number_or (VITE_LIMIT_MINUTES e) 5 * 60 * 1000"
    and "active = filter (\<lambda>ts. now - ts < windowMs) tlog"
  shows "\<exists>r. fst (checkLimit e now R ls) = Inr r
       \<and> (allowed r \<longrightarrow> resetInMinutes r = 0)
       \<and> (\<not> allowed r \<and> active \<noteq> [] \<longrightarrow>
            resetInMinutes r = \<lceil>real_of_int (windowMs - (now - hd active)) / 60000\<rceil>
          \<and> (sorted tlog \<longrightarrow> hd active = Min (set active)))"
  using assms
  by (cases "getHistory ls")
     (auto simp add: checkLimit_def Let_def Math_ceil_div_ceiling hd_filter_sorted_Min)

theorem checkLimit_resetInMinutes_witness:
  "fst (getHistory \<lparr>generation_history = Some (Parses_To (JArray [50000, 100000])),
                    flashback_history = None\<rparr>) = JArray [50000, 100000]
   \<and> sorted [50000, 100000 :: int]
   \<and> filter (\<lambda>ts. 200000 - ts < 5 * 60 * 1000) [50000, 100000 :: int] \<noteq> []
   \<and> (\<exists>r. fst (checkLimit \<lparr>VITE_MAX_PHOTOS = Some 1, VITE_LIMIT_MINUTES = Some 5\<rparr> 200000 1
              \<lparr>generation_history = Some (Parses_To (JArray [50000, 100000])),
               flashback_history = None\<rparr>) = Inr r
          \<and> \<not> allowed r \<and> resetInMinutes r = 3)
   \<and> hd (filter (\<lambda>ts. 200000 - ts < 5 * 60 * 1000) [50000, 100000 :: int])
       = Min (set (filter (\<lambda>ts. 200000 - ts < 5 * 60 * 1000) [50000, 100000 :: int]))"
proof -
  have h: "fst (getHistory \<lparr>generation_history = Some (Parses_To (JArray [50000, 100000])),
                    flashback_history = None\<rparr>) = JArray [50000, 100000]"
    by (simp add: getHistory_def)
  show ?thesis
    using h checkLimit_resetInMinutes [OF h refl refl,
        of "\<lparr>VITE_MAX_PHOTOS = Some 1, VITE_LIMIT_MINUTES = Some 5\<rparr>" 200000 1]
    by (simp add: number_or_def checkLimit_def getHistory_def)
qed

text \<open>
  C10, as the claim states it, fails on a stored text that parses to a value that is not
  an array: for the stored text \<^verbatim>\<open>null\<close>, \<^verbatim>\<open>getHistory\<close> returns \<^verbatim>\<open>null\<close>, which is no list.
\<close>

theorem getHistory_counterexample:
  "\<not> is_array (fst (getHistory \<lparr>generation_history = Some (Parses_To JNull), flashback_history = None\<rparr>))"
  by (simp add: getHistory_def is_array_def)

text \<open>
  C10, amended. \<^verbatim>\<open>getHistory\<close> always returns and leaves the storage as it is (in the
  model it has no error result: every exception of its body is caught in it). For a
  missing key, the empty string and an unparsable text it returns the empty list. For a
  text that parses it returns the parsed value, which is a list exactly when the text is
  a JSON array; and what a successful \<^verbatim>\<open>recordGeneration\<close> has stored is read back as a list.
\<close>

theorem getHistory_total:
  "snd (getHistory ls) = ls
   \<and> (generation_history ls = None \<or> generation_history ls = Some Empty_Text
        \<or> generation_history ls = Some Unparsable_Text \<longrightarrow> fst (getHistory ls) = JArray [])
   \<and> (\<forall>v. generation_history ls = Some (Parses_To v) \<longrightarrow>
          fst (getHistory ls) = v \<and> (is_array (fst (getHistory ls)) \<longleftrightarrow> is_array v))
   \<and> (fst (recordGeneration e now n ls) = Inr () \<longrightarrow>
          is_array (fst (getHistory (snd (recordGeneration e now n ls)))))"
  by (auto simp add: getHistory_def recordGeneration_def is_array_def Let_def
      split: option.splits stored_text.splits json.splits)

theorem getHistory_total_witness:
  "generation_history \<lparr>generation_history = Some Unparsable_Text, flashback_history = None\<rparr>
     = Some Unparsable_Text
   \<and> fst (getHistory \<lparr>generation_history = Some Unparsable_Text, flashback_history = None\<rparr>) = JArray []
   \<and> generation_history \<lparr>generation_history = Some (Parses_To (JArray [7])), flashback_history = None\<rparr>
     = Some (Parses_To (JArray [7]))
   \<and> fst (getHistory \<lparr>generation_history = Some (Parses_To (JArray [7])), flashback_history = None\<rparr>)
     = JArray [7]
   \<and> fst (recordGeneration \<lparr>VITE_MAX_PHOTOS = None, VITE_LIMIT_MINUTES = None\<rparr> 1000 2
           \<lparr>generation_history = Some (Parses_To (JArray [7])), flashback_history = None\<rparr>) = Inr ()
   \<and> is_array (fst (getHistory (snd (recordGeneration \<lparr>VITE_MAX_PHOTOS = None, VITE_LIMIT_MINUTES = None\<rparr> 1000 2
           \<lparr>generation_history = Some (Parses_To (JArray [7])), flashback_history = None\<rparr>))))"
proof -
  have r: "fst (recordGeneration \<lparr>VITE_MAX_PHOTOS = None, VITE_LIMIT_MINUTES = None\<rparr> 1000 2
           \<lparr>generation_history = Some (Parses_To (JArray [7])), flashback_history = None\<rparr>) = Inr ()"
    by (simp add: recordGeneration_def getHistory_def Let_def)
  show ?thesis
    using r
      getHistory_total [of "\<lparr>generation_history = Some Unparsable_Text, flashback_history = None\<rparr>"]
      getHistory_total [of "\<lparr>generation_history = Some (Parses_To (JArray [7])), flashback_history = None\<rparr>"
        "\<lparr>VITE_MAX_PHOTOS = None, VITE_LIMIT_MINUTES = None\<rparr>" 1000 2]
    by simp
qed

section \<open>Generation\<close>

subsection \<open>Objects as entry lists\<close>

lemma map_of_fold_update:
  "map_of (fold (\<lambda>x. AList.update (key x) (val x)) xs al) k =
     (case filter (\<lambda>x. key x = k) xs of [] \<Rightarrow> map_of al k | y # ys \<Rightarrow> Some (val (last (y # ys))))"
proof (induction xs arbitrary: al)
  case Nil
  show ?case by simp
next
  case (Cons x xs)
  show ?case
    by (cases "filter (\<lambda>x. key x = k) xs") (auto simp add: Cons.IH update_conv')
qed

lemma distinct_fold_update:
  "distinct (map fst al) \<Longrightarrow> distinct (map fst (fold (\<lambda>x. AList.update (key x) (val x)) xs al))"
  by (induction xs arbitrary: al) (simp_all add: distinct_update)

lemma keys_fold_update:
  "fst ` set (fold (\<lambda>x. AList.update (key x) (val x)) xs al) = fst ` set al \<union> key ` set xs"
  by (induction xs arbitrary: al) (auto simp add: dom_update)

lemma app_processDecade:
  "generatedImages (app (processDecade photo c w)) =
     AList.update (fst c) (settledImage (snd c)) (generatedImages (app w))"
  by (cases c) (simp add: processDecade_def setGeneratedImage_def Let_def split: call_result.splits)

lemma generatedImages_fold_processDecade:
  "generatedImages (app (fold (processDecade photo) cs w)) =
     fold (\<lambda>c. AList.update (fst c) (settledImage (snd c))) cs (generatedImages (app w))"
  by (induction cs arbitrary: w) (simp_all add: app_processDecade)



lemma app_fold_processDecade_other:
  "app (fold (processDecade photo) cs w) =
     (app w)\<lparr>generatedImages := generatedImages (app (fold (processDecade photo) cs w))\<rparr>"
proof (induction cs arbitrary: w)
  case Nil
  show ?case by simp
next
  case (Cons c cs)
  have step: "app (processDecade photo c w) =
      (app w)\<lparr>generatedImages := generatedImages (app (processDecade photo c w))\<rparr>"
    by (cases c) (simp add: processDecade_def setGeneratedImage_def Let_def split: call_result.splits)
  have "app (fold (processDecade photo) (c # cs) w) =
      (app (processDecade photo c w))\<lparr>generatedImages :=
         generatedImages (app (fold (processDecade photo) (c # cs) w))\<rparr>"
    using Cons.IH [of "processDecade photo c w"] by simp
  also have "\<dots> = (app w)\<lparr>generatedImages :=
         generatedImages (app (fold (processDecade photo) (c # cs) w))\<rparr>"
    by (subst step) simp
  finally show ?case .
qed

lemma generatedImages_handleGenerateClick:
  assumes "uploadedImage (app w) = Some photo" and "photo \<noteq> []"
    and "selectedDecades (app w) \<noteq> []"
  shows "generatedImages (app (handleGenerateClick now settled w)) =
     fold (\<lambda>c. AList.update (fst c) (settledImage (snd c))) settled
       (fold (\<lambda>decade. AList.update decade pendingImage) (selectedDecades (app w)) [])"
  using assms
  by (simp add: handleGenerateClick_def Let_def generatedImages_fold_processDecade)


subsection \<open>Runs with other events in between\<close>

lemma handleRegenerateDecade_parts:
  "handleRegenerateDecade r decade w =
     (case handleRegenerateDecade_begin decade w of
        None \<Rightarrow> w
      | Some w1 \<Rightarrow> handleRegenerateDecade_settled r decade w1)"
  by (simp add: handleRegenerateDecade_def handleRegenerateDecade_begin_def
      handleRegenerateDecade_settled_def Let_def split: option.splits)















text \<open>
  C8. When the call of a decade settles, with success or with failure, the handler of
  \<^verbatim>\<open>processDecade\<close> writes the entry of that decade and nothing else of the state of the
  component: the entry of every other decade is what it was. In a whole run of
  \<^verbatim>\<open>handleGenerateClick\<close> the final entry of a decade depends on the results of its own
  calls only: two runs that differ in the results of the sibling calls, or in the order
  in which the calls settle, end with the same entry for it.
\<close>

theorem processDecade_only_own_entry:
  "(d' \<noteq> decade \<longrightarrow>
      map_of (generatedImages (app (processDecade photo (decade, r) w))) d'
        = map_of (generatedImages (app w)) d')
   \<and> map_of (generatedImages (app (processDecade photo (decade, r) w))) decade
        = Some (settledImage r)
   \<and> app (processDecade photo (decade, r) w)
        = (app w)\<lparr>generatedImages := AList.update decade (settledImage r) (generatedImages (app w))\<rparr>
   \<and> (uploadedImage (app w) = Some photo \<and> photo \<noteq> [] \<and> selectedDecades (app w) \<noteq> []
        \<and> filter (\<lambda>c. fst c = d) settled1 = filter (\<lambda>c. fst c = d) settled2 \<longrightarrow>
      map_of (generatedImages (app (handleGenerateClick now settled1 w))) d
        = map_of (generatedImages (app (handleGenerateClick now settled2 w))) d)"
proof -
  have one: "app (processDecade photo (decade, r) w)
        = (app w)\<lparr>generatedImages := AList.update decade (settledImage r) (generatedImages (app w))\<rparr>"
    by (simp add: processDecade_def setGeneratedImage_def Let_def split: call_result.splits)
  have two: "map_of (generatedImages (app (handleGenerateClick now settled1 w))) d
        = map_of (generatedImages (app (handleGenerateClick now settled2 w))) d"
    if "uploadedImage (app w) = Some photo" "photo \<noteq> []" "selectedDecades (app w) \<noteq> []"
       "filter (\<lambda>c. fst c = d) settled1 = filter (\<lambda>c. fst c = d) settled2"
    using that
    by (simp only: generatedImages_handleGenerateClick [OF that(1-3)] map_of_fold_update)
  show ?thesis
    using two by (simp add: one update_conv')
qed

theorem processDecade_only_own_entry_witness:
  "''1980s'' \<noteq> ''1950s''
   \<and> map_of (generatedImages (app (processDecade ''photo'' (''1950s'', Rejected_Error ''quota'')
        (initial_world\<lparr>app := initial_App_state\<lparr>generatedImages :=
           [(''1950s'', pendingImage), (''1980s'', settledImage (Resolved ''url''))]\<rparr>\<rparr>)))) ''1980s''
       = Some (settledImage (Resolved ''url''))
   \<and> uploadedImage (app (initial_world\<lparr>app := initial_App_state\<lparr>uploadedImage := Some ''photo'',
        selectedDecades := [''1950s'', ''1980s'']\<rparr>\<rparr>)) = Some ''photo''
   \<and> filter (\<lambda>c. fst c = ''1980s'') [(''1950s'', Rejected_Error ''quota''), (''1980s'', Resolved ''url'')]
       = filter (\<lambda>c. fst c = ''1980s'') [(''1980s'', Resolved ''url''), (''1950s'', Resolved ''other'')]
   \<and> map_of (generatedImages (app (handleGenerateClick 1700000000000
          [(''1950s'', Rejected_Error ''quota''), (''1980s'', Resolved ''url'')]
          (initial_world\<lparr>app := initial_App_state\<lparr>uploadedImage := Some ''photo'',
             selectedDecades := [''1950s'', ''1980s'']\<rparr>\<rparr>)))) ''1980s''
       = map_of (generatedImages (app (handleGenerateClick 1700000000000
          [(''1980s'', Resolved ''url''), (''1950s'', Resolved ''other'')]
          (initial_world\<lparr>app := initial_App_state\<lparr>uploadedImage := Some ''photo'',
             selectedDecades := [''1950s'', ''1980s'']\<rparr>\<rparr>)))) ''1980s''"
proof -
  let ?w = "initial_world\<lparr>app := initial_App_state\<lparr>uploadedImage := Some ''photo'',
        selectedDecades := [''1950s'', ''1980s'']\<rparr>\<rparr>"
  let ?v = "initial_world\<lparr>app := initial_App_state\<lparr>generatedImages :=
           [(''1950s'', pendingImage), (''1980s'', settledImage (Resolved ''url''))]\<rparr>\<rparr>"
  have a: "map_of (generatedImages (app (processDecade ''photo'' (''1950s'', Rejected_Error ''quota'') ?v))) ''1980s''
      = Some (settledImage (Resolved ''url''))"
    using processDecade_only_own_entry [of "''1980s''" "''1950s''" "''photo''" "Rejected_Error ''quota''" ?v]
    by simp
  have b: "map_of (generatedImages (app (handleGenerateClick 1700000000000
          [(''1950s'', Rejected_Error ''quota''), (''1980s'', Resolved ''url'')] ?w))) ''1980s''
       = map_of (generatedImages (app (handleGenerateClick 1700000000000
          [(''1980s'', Resolved ''url''), (''1950s'', Resolved ''other'')] ?w))) ''1980s''"
    using processDecade_only_own_entry [of _ _ "''photo''" _ ?w "''1980s''"
        "[(''1950s'', Rejected_Error ''quota''), (''1980s'', Resolved ''url'')]"
        "[(''1980s'', Resolved ''url''), (''1950s'', Resolved ''other'')]" 1700000000000]
    by simp
  show ?thesis using a b by simp
qed


text \<open>
  C2. \<^verbatim>\<open>handleRegenerateDecade\<close> on a decade whose entry is \<^verbatim>\<open>'pending'\<close> changes nothing:
  the result object and every other part of the state are the same, nothing is printed
  and no request is sent.
\<close>

theorem handleRegenerateDecade_pending_noop:
  assumes "map_of (generatedImages (app w)) decade = Some g" and "status g = Pending"
  shows "handleRegenerateDecade r decade w = w"
  using assms by (simp add: handleRegenerateDecade_def split: option.splits)

theorem handleRegenerateDecade_pending_noop_witness:
  "map_of (generatedImages (app (initial_world\<lparr>app := initial_App_state\<lparr>uploadedImage := Some ''photo'',
        appState := generating,
        generatedImages := [(''1950s'', pendingImage), (''1980s'', settledImage (Resolved ''url''))]\<rparr>\<rparr>)))
      ''1950s'' = Some pendingImage
   \<and> status pendingImage = Pending
   \<and> handleRegenerateDecade (Resolved ''again'') ''1950s''
        (initial_world\<lparr>app := initial_App_state\<lparr>uploadedImage := Some ''photo'',
           appState := generating,
           generatedImages := [(''1950s'', pendingImage), (''1980s'', settledImage (Resolved ''url''))]\<rparr>\<rparr>)
      = initial_world\<lparr>app := initial_App_state\<lparr>uploadedImage := Some ''photo'',
           appState := generating,
           generatedImages := [(''1950s'', pendingImage), (''1980s'', settledImage (Resolved ''url''))]\<rparr>\<rparr>
   \<and> handleRegenerateDecade (Resolved ''again'') ''1980s''
        (initial_world\<lparr>app := initial_App_state\<lparr>uploadedImage := Some ''photo'',
           appState := generating,
           generatedImages := [(''1950s'', pendingImage), (''1980s'', settledImage (Resolved ''url''))]\<rparr>\<rparr>)
      \<noteq> initial_world\<lparr>app := initial_App_state\<lparr>uploadedImage := Some ''photo'',
           appState := generating,
           generatedImages := [(''1950s'', pendingImage), (''1980s'', settledImage (Resolved ''url''))]\<rparr>\<rparr>"
proof -
  let ?w = "initial_world\<lparr>app := initial_App_state\<lparr>uploadedImage := Some ''photo'',
        appState := generating,
        generatedImages := [(''1950s'', pendingImage), (''1980s'', settledImage (Resolved ''url''))]\<rparr>\<rparr>"
  have h1: "map_of (generatedImages (app ?w)) ''1950s'' = Some pendingImage" by simp
  have h2: "status pendingImage = Pending" by (simp add: pendingImage_def)
  have other: "console (handleRegenerateDecade (Resolved ''again'') ''1980s'' ?w) \<noteq> console ?w"
    by (simp add: handleRegenerateDecade_def Let_def settledImage_def setGeneratedImage_def initial_world_def)
  then have "handleRegenerateDecade (Resolved ''again'') ''1980s'' ?w \<noteq> ?w"
    by metis
  then show ?thesis
    using h1 h2 handleRegenerateDecade_pending_noop [OF h1 h2, of "Resolved ''again''"]
    by simp
qed

section \<open>History\<close>

lemma filter_take_front:
  assumes "P x" and "\<forall>y \<in> set xs. \<not> P y"
  shows "filter P (take (Suc n) (x # xs)) = [x]"
proof -
  have "\<forall>y \<in> set (take n xs). \<not> P y"
    using assms(2) by (meson in_set_takeD)
  then have "filter P (take n xs) = []"
    by (simp add: filter_empty_conv)
  then show ?thesis using assms(1) by simp
qed

lemma await_saveHistoryItem_frame:
  "app (snd (await_saveHistoryItem item w)) = app w"
  "storage (snd (await_saveHistoryItem item w)) = storage w"
  "console (snd (await_saveHistoryItem item w)) = console w"
  "db_saves (snd (await_saveHistoryItem item w)) = db_saves w @ [item]"
  by (simp_all add: await_saveHistoryItem_def Let_def)

lemma app_autoSave:
  "app (autoSave now w) = app w \<or>
   (\<exists>h. app (autoSave now w) = (app w)\<lparr>history := h\<rparr>)"
proof (cases "autoSave now w = w")
  case True
  then show ?thesis by simp
next
  case False
  then obtain photo sid where g: "uploadedImage (app w) = Some photo"
      "currentSessionId (app w) = Some sid"
      "appState (app w) \<noteq> idle \<and> photo \<noteq> [] \<and> sid \<noteq> []"
    by (auto simp add: autoSave_def split: option.splits if_splits)
  let ?w1 = "w\<lparr>app := (app w)\<lparr>history :=
      take 20 (newItem sid now photo (app w) #
               filter (\<lambda>item. item_id item \<noteq> sid) (history (app w)))\<rparr>\<rparr>"
  have "app (autoSave now w) = app (snd (await_saveHistoryItem (newItem sid now photo (app w)) ?w1))"
    using g by (simp add: autoSave_def Let_def split: prod.splits bool.splits)
  then have "app (autoSave now w) = (app w)\<lparr>history :=
      take 20 (newItem sid now photo (app w) #
               filter (\<lambda>item. item_id item \<noteq> sid) (history (app w)))\<rparr>"
    by (simp only: await_saveHistoryItem_frame) simp
  then show ?thesis by blast
qed

lemma history_autoSave:
  assumes "uploadedImage (app w) = Some photo" and "photo \<noteq> []"
    and "currentSessionId (app w) = Some sid" and "sid \<noteq> []"
    and "appState (app w) \<noteq> idle"
  shows "history (app (autoSave now w)) =
     take 20 (newItem sid now photo (app w) # filter (\<lambda>item. item_id item \<noteq> sid) (history (app w)))"
proof -
  let ?w1 = "w\<lparr>app := (app w)\<lparr>history :=
      take 20 (newItem sid now photo (app w) #
               filter (\<lambda>item. item_id item \<noteq> sid) (history (app w)))\<rparr>\<rparr>"
  have "app (autoSave now w) = app (snd (await_saveHistoryItem (newItem sid now photo (app w)) ?w1))"
    using assms by (simp add: autoSave_def Let_def split: prod.splits bool.splits)
  then show ?thesis by (simp add: await_saveHistoryItem_frame)
qed

lemma item_id_newItem: "item_id (newItem sid now photo s) = sid"
  by (simp add: newItem_def)

text \<open>
  C7. The auto-save is idempotent on the identifier. Whatever the list of the component
  holds, after the effect has saved the session \<open>sid\<close> and then saved it again (with a
  later clock reading and whatever the state of the component has become in between),
  the list holds exactly one record with the identifier \<open>sid\<close>, and it is the record of
  the second save; it stands first in the list.
\<close>

theorem autoSave_upsert_idempotent:
  assumes "uploadedImage (app w1) = Some photo1" and "photo1 \<noteq> []"
    and "currentSessionId (app w1) = Some sid" and "sid \<noteq> []"
    and "appState (app w1) \<noteq> idle"
    and "uploadedImage (app w2) = Some photo2" and "photo2 \<noteq> []"
    and "currentSessionId (app w2) = Some sid"
    and "appState (app w2) \<noteq> idle"
    and "history (app w2) = history (app (autoSave t1 w1))"
  shows "filter (\<lambda>item. item_id item = sid) (history (app (autoSave t2 w2)))
           = [newItem sid t2 photo2 (app w2)]
       \<and> length (filter (\<lambda>item. item_id item = sid) (history (app (autoSave t2 w2)))) = 1
       \<and> hd (history (app (autoSave t2 w2))) = newItem sid t2 photo2 (app w2)"
proof -
  let ?rest = "filter (\<lambda>item. item_id item \<noteq> sid) (history (app w2))"
  have h: "history (app (autoSave t2 w2)) = take (Suc 19) (newItem sid t2 photo2 (app w2) # ?rest)"
    using history_autoSave [OF assms(6,7,8,4,9), of t2] by simp
  have "filter (\<lambda>item. item_id item = sid) (take (Suc 19) (newItem sid t2 photo2 (app w2) # ?rest))
      = [newItem sid t2 photo2 (app w2)]"
    by (rule filter_take_front) (simp_all add: item_id_newItem)
  then show ?thesis using h by simp
qed

theorem autoSave_upsert_idempotent_witness:
  "uploadedImage (app (initial_world\<lparr>app := initial_App_state\<lparr>uploadedImage := Some ''photo'',
       appState := generating, currentSessionId := Some ''17'',
       history := [newItem ''17'' 5 ''old'' initial_App_state,
                   newItem ''9'' 3 ''other'' initial_App_state]\<rparr>\<rparr>)) = Some ''photo''
   \<and> currentSessionId (app (initial_world\<lparr>app := initial_App_state\<lparr>uploadedImage := Some ''photo'',
       appState := generating, currentSessionId := Some ''17'',
       history := [newItem ''17'' 5 ''old'' initial_App_state,
                   newItem ''9'' 3 ''other'' initial_App_state]\<rparr>\<rparr>)) = Some ''17''
   \<and> filter (\<lambda>item. item_id item = ''17'')
        (history (app (autoSave 20
          ((autoSave 10 (initial_world\<lparr>app := initial_App_state\<lparr>uploadedImage := Some ''photo'',
               appState := generating, currentSessionId := Some ''17'',
               history := [newItem ''17'' 5 ''old'' initial_App_state,
                           newItem ''9'' 3 ''other'' initial_App_state]\<rparr>\<rparr>))
           \<lparr>app := (app (autoSave 10 (initial_world\<lparr>app := initial_App_state\<lparr>uploadedImage := Some ''photo'',
               appState := generating, currentSessionId := Some ''17'',
               history := [newItem ''17'' 5 ''old'' initial_App_state,
                           newItem ''9'' 3 ''other'' initial_App_state]\<rparr>\<rparr>)))
                 \<lparr>appState := results_shown\<rparr>\<rparr>))))
       = [newItem ''17'' 20 ''photo''
            ((app (autoSave 10 (initial_world\<lparr>app := initial_App_state\<lparr>uploadedImage := Some ''photo'',
               appState := generating, currentSessionId := Some ''17'',
               history := [newItem ''17'' 5 ''old'' initial_App_state,
                           newItem ''9'' 3 ''other'' initial_App_state]\<rparr>\<rparr>)))
                 \<lparr>appState := results_shown\<rparr>)]"
proof -
  let ?w1 = "initial_world\<lparr>app := initial_App_state\<lparr>uploadedImage := Some ''photo'',
       appState := generating, currentSessionId := Some ''17'',
       history := [newItem ''17'' 5 ''old'' initial_App_state,
                   newItem ''9'' 3 ''other'' initial_App_state]\<rparr>\<rparr>"
  let ?w2 = "(autoSave 10 ?w1)\<lparr>app := (app (autoSave 10 ?w1))\<lparr>appState := results_shown\<rparr>\<rparr>"
  have a1: "uploadedImage (app ?w1) = Some ''photo''" and a2: "''photo'' \<noteq> []"
    and a3: "currentSessionId (app ?w1) = Some ''17''" and a4: "''17'' \<noteq> []"
    and a5: "appState (app ?w1) \<noteq> idle"
    by simp_all
  have b1: "uploadedImage (app ?w2) = Some ''photo''"
    and b3: "currentSessionId (app ?w2) = Some ''17''"
    and b5: "appState (app ?w2) \<noteq> idle"
    and b6: "history (app ?w2) = history (app (autoSave 10 ?w1))"
    using app_autoSave [of 10 ?w1] by auto
  show ?thesis
    using a1 a3 autoSave_upsert_idempotent [OF a1 a2 a3 a4 a5 b1 a2 b3 b5 b6, of 20]
    by simp
qed





lemma initHistory_unparsable_kept:
  assumes "flashback_history (storage w) = Some Unparsable_Text"
  shows "storage (initHistory w) = storage w \<and> db_saves (initHistory w) = db_saves w
       \<and> database (initHistory w) = database w"
  using assms by (simp add: initHistory_def Let_def)







section \<open>Album download\<close>

lemma imageData_of_fold:
  "imageData_of imgs =
     fold (\<lambda>x. AList.update (fst x) (the (url (snd x))))
       (filter (\<lambda>(decade, g). status g = Done \<and> truthy (url g)) imgs) []"
  unfolding imageData_of_def
  by (rule fold_cong) (auto simp add: truthy_def split: option.splits)

lemma length_imageData_of:
  "length (imageData_of imgs) =
     card (fst ` set (filter (\<lambda>(decade, g). status g = Done \<and> truthy (url g)) imgs))"
proof -
  have d: "distinct (map fst (imageData_of imgs))"
    unfolding imageData_of_fold by (intro distinct_fold_update) simp
  have k: "fst ` set (imageData_of imgs)
      = fst ` set (filter (\<lambda>(decade, g). status g = Done \<and> truthy (url g)) imgs)"
    unfolding imageData_of_fold by (simp add: keys_fold_update)
  have "length (imageData_of imgs) = length (map fst (imageData_of imgs))" by simp
  also have "\<dots> = card (set (map fst (imageData_of imgs)))"
    using d by (simp only: distinct_card)
  finally show ?thesis using k by simp
qed

lemma completed_keys:
  assumes "distinct (map fst imgs)"
  shows "fst ` set (filter (\<lambda>(decade, g). status g = Done \<and> truthy (url g)) imgs)
       = {d. completed imgs d}"
proof -
  have "(d, g) \<in> set imgs \<longleftrightarrow> map_of imgs d = Some g" for d g
    using assms by simp
  then show ?thesis
    by (auto simp add: completed_def image_iff split: option.splits)
qed

lemma completed_count_less:
  assumes "distinct (map fst imgs)" and "distinct decades"
    and "fst ` set imgs \<subseteq> set decades"
  shows "length (imageData_of imgs) < length decades
       \<longleftrightarrow> (\<exists>d \<in> set decades. \<not> completed imgs d)"
proof -
  let ?D = "{d. completed imgs d}"
  have len: "length (imageData_of imgs) = card ?D"
    unfolding length_imageData_of completed_keys [OF assms(1)] ..
  have "?D \<subseteq> fst ` set imgs"
    unfolding completed_keys [OF assms(1), symmetric] by auto
  then have sub: "?D \<subseteq> set decades"
    using assms(3) by blast
  have cd: "card (set decades) = length decades"
    using assms(2) by (rule distinct_card)
  show ?thesis
  proof
    assume "length (imageData_of imgs) < length decades"
    then have "?D \<noteq> set decades" using len cd by auto
    then show "\<exists>d \<in> set decades. \<not> completed imgs d" using sub by auto
  next
    assume "\<exists>d \<in> set decades. \<not> completed imgs d"
    then have "?D \<subset> set decades" using sub by auto
    then have "card ?D < card (set decades)"
      by (intro psubset_card_mono) simp_all
    then show "length (imageData_of imgs) < length decades" using len cd by simp
  qed
qed

text \<open>
  C5, as the claim states it, fails where the result object has a completed entry for a
  decade that is not selected: \<^verbatim>\<open>handleDownloadAlbum\<close> compares the number of completed
  entries with the number of selected decades and does not look the selected decades
  up. The component gets into such a state when a session is picked from the history
  while a call is in flight: the handler of the call then writes into the result object
  of the other session. Below, the session with \<^verbatim>\<open>'1960s'\<close> is generating, the session with
  \<^verbatim>\<open>'1950s'\<close> (whose call had failed) is picked, and the call for \<^verbatim>\<open>'1960s'\<close> resolves. The
  selected decade \<^verbatim>\<open>'1950s'\<close> has no completed result, and still no alert is shown and an
  album is offered for download.
\<close>

theorem handleDownloadAlbum_counterexample:
  "selectedDecades (app (processDecade ''photo'' (''1960s'', Resolved ''url'')
       (handleSelectHistoryItem
          \<lparr>item_id = ''9'', timestamp = 3, originalImage = ''other'', aspectRatio = None,
           item_selectedDecades = [''1950s''],
           item_generatedImages = [(''1950s'', settledImage (Rejected_Error ''quota''))],
           item_appState = results_shown\<rparr>
          (initial_world\<lparr>app := initial_App_state\<lparr>uploadedImage := Some ''photo'',
             appState := generating, isLoading := True, selectedDecades := [''1960s''],
             generatedImages := [(''1960s'', pendingImage)],
             currentSessionId := Some ''17''\<rparr>\<rparr>)))) = [''1950s'']
   \<and> \<not> completed (generatedImages (app (processDecade ''photo'' (''1960s'', Resolved ''url'')
       (handleSelectHistoryItem
          \<lparr>item_id = ''9'', timestamp = 3, originalImage = ''other'', aspectRatio = None,
           item_selectedDecades = [''1950s''],
           item_generatedImages = [(''1950s'', settledImage (Rejected_Error ''quota''))],
           item_appState = results_shown\<rparr>
          (initial_world\<lparr>app := initial_App_state\<lparr>uploadedImage := Some ''photo'',
             appState := generating, isLoading := True, selectedDecades := [''1960s''],
             generatedImages := [(''1960s'', pendingImage)],
             currentSessionId := Some ''17''\<rparr>\<rparr>))))) ''1950s''
   \<and> downloads (handleDownloadAlbum (\<lambda>imageData. Some ''album'')
       (processDecade ''photo'' (''1960s'', Resolved ''url'')
       (handleSelectHistoryItem
          \<lparr>item_id = ''9'', timestamp = 3, originalImage = ''other'', aspectRatio = None,
           item_selectedDecades = [''1950s''],
           item_generatedImages = [(''1950s'', settledImage (Rejected_Error ''quota''))],
           item_appState = results_shown\<rparr>
          (initial_world\<lparr>app := initial_App_state\<lparr>uploadedImage := Some ''photo'',
             appState := generating, isLoading := True, selectedDecades := [''1960s''],
             generatedImages := [(''1960s'', pendingImage)],
             currentSessionId := Some ''17''\<rparr>\<rparr>))))
       = [(''album'', ''past-forward-album.jpg'')]
   \<and> alerts (handleDownloadAlbum (\<lambda>imageData. Some ''album'')
       (processDecade ''photo'' (''1960s'', Resolved ''url'')
       (handleSelectHistoryItem
          \<lparr>item_id = ''9'', timestamp = 3, originalImage = ''other'', aspectRatio = None,
           item_selectedDecades = [''1950s''],
           item_generatedImages = [(''1950s'', settledImage (Rejected_Error ''quota''))],
           item_appState = results_shown\<rparr>
          (initial_world\<lparr>app := initial_App_state\<lparr>uploadedImage := Some ''photo'',
             appState := generating, isLoading := True, selectedDecades := [''1960s''],
             generatedImages := [(''1960s'', pendingImage)],
             currentSessionId := Some ''17''\<rparr>\<rparr>)))) = []"
  by (simp add: completed_def handleDownloadAlbum_def imageData_of_def settledImage_def
      truthy_def initial_world_def processDecade_def setGeneratedImage_def
      handleSelectHistoryItem_def Let_def)

text \<open>
  C5, amended. \<^verbatim>\<open>handleDownloadAlbum\<close> produces no file and shows the alert asking to wait
  exactly when the result object has fewer completed entries (status \<^verbatim>\<open>'done'\<close> and a
  non-empty URL) than there are selected decades. Otherwise it calls the compositor once
  on the completed entries: when the compositor resolves, exactly one album is offered
  for download and no alert is shown; when it rejects, no file is produced and the error
  alert is shown. When the selected decades are distinct and the result object has
  entries for selected decades only (as \<^verbatim>\<open>handleGenerateClick\<close> builds it), "fewer
  completed entries than selected decades" says that some selected decade lacks a
  completed result.
\<close>

theorem handleDownloadAlbum_gate:
  "(length (imageData_of (generatedImages (app w))) < length (selectedDecades (app w)) \<longrightarrow>
      downloads (handleDownloadAlbum createAlbumPage w) = downloads w
    \<and> alerts (handleDownloadAlbum createAlbumPage w) = alerts w @
        [''Please wait for all images to finish generating before downloading the album.''])
   \<and> (\<not> length (imageData_of (generatedImages (app w))) < length (selectedDecades (app w)) \<longrightarrow>
        (\<forall>albumDataUrl. createAlbumPage (imageData_of (generatedImages (app w))) = Some albumDataUrl \<longrightarrow>
           downloads (handleDownloadAlbum createAlbumPage w)
             = downloads w @ [(albumDataUrl, ''past-forward-album.jpg'')]
         \<and> alerts (handleDownloadAlbum createAlbumPage w) = alerts w)
      \<and> (createAlbumPage (imageData_of (generatedImages (app w))) = None \<longrightarrow>
           downloads (handleDownloadAlbum createAlbumPage w) = downloads w
         \<and> alerts (handleDownloadAlbum createAlbumPage w) = alerts w @
             [''Sorry, there was an error creating your album. Please try again.'']))
   \<and> (distinct (map fst (generatedImages (app w))) \<and> distinct (selectedDecades (app w))
        \<and> fst ` set (generatedImages (app w)) \<subseteq> set (selectedDecades (app w)) \<longrightarrow>
        (length (imageData_of (generatedImages (app w))) < length (selectedDecades (app w))
           \<longleftrightarrow> (\<exists>d \<in> set (selectedDecades (app w)). \<not> completed (generatedImages (app w)) d)))"
proof -
  have a: "downloads (handleDownloadAlbum createAlbumPage w) = downloads w
    \<and> alerts (handleDownloadAlbum createAlbumPage w) = alerts w @
        [''Please wait for all images to finish generating before downloading the album.'']"
    if "length (imageData_of (generatedImages (app w))) < length (selectedDecades (app w))"
    using that by (simp add: handleDownloadAlbum_def Let_def)
  have b: "downloads (handleDownloadAlbum createAlbumPage w)
             = downloads w @ [(albumDataUrl, ''past-forward-album.jpg'')]
         \<and> alerts (handleDownloadAlbum createAlbumPage w) = alerts w"
    if "\<not> length (imageData_of (generatedImages (app w))) < length (selectedDecades (app w))"
      "createAlbumPage (imageData_of (generatedImages (app w))) = Some albumDataUrl"
    for albumDataUrl
    using that by (simp add: handleDownloadAlbum_def Let_def)
  have c: "downloads (handleDownloadAlbum createAlbumPage w) = downloads w
         \<and> alerts (handleDownloadAlbum createAlbumPage w) = alerts w @
             [''Sorry, there was an error creating your album. Please try again.'']"
    if "\<not> length (imageData_of (generatedImages (app w))) < length (selectedDecades (app w))"
      "createAlbumPage (imageData_of (generatedImages (app w))) = None"
    using that by (simp add: handleDownloadAlbum_def Let_def)
  show ?thesis
    using a b c completed_count_less [of "generatedImages (app w)" "selectedDecades (app w)"]
    by blast
qed


theorem handleDownloadAlbum_gate_witness:
  "length (imageData_of (generatedImages (app (initial_world\<lparr>app := initial_App_state\<lparr>
       selectedDecades := [''1950s'', ''1980s''],
       generatedImages := [(''1950s'', settledImage (Resolved ''url'')), (''1980s'', pendingImage)]\<rparr>\<rparr>))))
     < length (selectedDecades (app (initial_world\<lparr>app := initial_App_state\<lparr>
       selectedDecades := [''1950s'', ''1980s''],
       generatedImages := [(''1950s'', settledImage (Resolved ''url'')), (''1980s'', pendingImage)]\<rparr>\<rparr>)))
   \<and> distinct (map fst [(''1950s'', settledImage (Resolved ''url'')), (''1980s'', pendingImage)])
   \<and> distinct [''1950s'', ''1980s'']
   \<and> fst ` set [(''1950s'', settledImage (Resolved ''url'')), (''1980s'', pendingImage)]
       \<subseteq> set [''1950s'', ''1980s'']
   \<and> (\<exists>d \<in> set [''1950s'', ''1980s''].
         \<not> completed [(''1950s'', settledImage (Resolved ''url'')), (''1980s'', pendingImage)] d)
   \<and> downloads (handleDownloadAlbum (\<lambda>imageData. Some ''album'')
        (initial_world\<lparr>app := initial_App_state\<lparr>
           selectedDecades := [''1950s'', ''1980s''],
           generatedImages := [(''1950s'', settledImage (Resolved ''url'')), (''1980s'', pendingImage)]\<rparr>\<rparr>)) = []
   \<and> alerts (handleDownloadAlbum (\<lambda>imageData. Some ''album'')
        (initial_world\<lparr>app := initial_App_state\<lparr>
           selectedDecades := [''1950s'', ''1980s''],
           generatedImages := [(''1950s'', settledImage (Resolved ''url'')), (''1980s'', pendingImage)]\<rparr>\<rparr>))
       = [''Please wait for all images to finish generating before downloading the album.'']
   \<and> \<not> length (imageData_of [(''1950s'', settledImage (Resolved ''url'')),
                                (''1980s'', settledImage (Resolved ''url2''))])
         < length [''1950s'', ''1980s'']
   \<and> downloads (handleDownloadAlbum (\<lambda>imageData. Some ''album'')
        (initial_world\<lparr>app := initial_App_state\<lparr>
           selectedDecades := [''1950s'', ''1980s''],
           generatedImages := [(''1950s'', settledImage (Resolved ''url'')),
                               (''1980s'', settledImage (Resolved ''url2''))]\<rparr>\<rparr>))
       = [(''album'', ''past-forward-album.jpg'')]
   \<and> alerts (handleDownloadAlbum (\<lambda>imageData. Some ''album'')
        (initial_world\<lparr>app := initial_App_state\<lparr>
           selectedDecades := [''1950s'', ''1980s''],
           generatedImages := [(''1950s'', settledImage (Resolved ''url'')),
                               (''1980s'', settledImage (Resolved ''url2''))]\<rparr>\<rparr>)) = []
   \<and> downloads (handleDownloadAlbum (\<lambda>imageData. None)
        (initial_world\<lparr>app := initial_App_state\<lparr>
           selectedDecades := [''1950s'', ''1980s''],
           generatedImages := [(''1950s'', settledImage (Resolved ''url'')),
                               (''1980s'', settledImage (Resolved ''url2''))]\<rparr>\<rparr>)) = []
   \<and> alerts (handleDownloadAlbum (\<lambda>imageData. None)
        (initial_world\<lparr>app := initial_App_state\<lparr>
           selectedDecades := [''1950s'', ''1980s''],
           generatedImages := [(''1950s'', settledImage (Resolved ''url'')),
                               (''1980s'', settledImage (Resolved ''url2''))]\<rparr>\<rparr>))
       = [''Sorry, there was an error creating your album. Please try again.'']"
proof -
  let ?gA = "[(''1950s'', settledImage (Resolved ''url'')), (''1980s'', pendingImage)]"
  let ?gB = "[(''1950s'', settledImage (Resolved ''url'')), (''1980s'', settledImage (Resolved ''url2''))]"
  let ?A = "initial_world\<lparr>app := initial_App_state\<lparr>
       selectedDecades := [''1950s'', ''1980s''], generatedImages := ?gA\<rparr>\<rparr>"
  let ?B = "initial_world\<lparr>app := initial_App_state\<lparr>
       selectedDecades := [''1950s'', ''1980s''], generatedImages := ?gB\<rparr>\<rparr>"
  have sA: "selectedDecades (app ?A) = [''1950s'', ''1980s'']" "generatedImages (app ?A) = ?gA"
    and sB: "selectedDecades (app ?B) = [''1950s'', ''1980s'']" "generatedImages (app ?B) = ?gB"
    by simp_all
  have nA: "length (imageData_of ?gA) < length [''1950s'', ''1980s'']"
    by (simp add: imageData_of_def settledImage_def pendingImage_def truthy_def)
  have nB: "\<not> length (imageData_of ?gB) < length [''1950s'', ''1980s'']"
    by (simp add: imageData_of_def settledImage_def truthy_def)
  have wA: "downloads ?A = []" "alerts ?A = []" and wB: "downloads ?B = []" "alerts ?B = []"
    by (simp_all add: initial_world_def)
  have inv: "distinct (map fst ?gA)" "distinct [''1950s'', ''1980s'']"
      "fst ` set ?gA \<subseteq> set [''1950s'', ''1980s'']"
    by simp_all
  note tA = handleDownloadAlbum_gate [of ?A "\<lambda>imageData. Some ''album''", unfolded sA wA]
  note tB = handleDownloadAlbum_gate [of ?B "\<lambda>imageData. Some ''album''", unfolded sB wB]
  note tN = handleDownloadAlbum_gate [of ?B "\<lambda>imageData. None", unfolded sB wB]
  have lack: "\<exists>d \<in> set [''1950s'', ''1980s'']. \<not> completed ?gA d"
    using tA nA inv by blast
  have outA: "downloads (handleDownloadAlbum (\<lambda>imageData. Some ''album'') ?A) = []"
      "alerts (handleDownloadAlbum (\<lambda>imageData. Some ''album'') ?A)
        = [''Please wait for all images to finish generating before downloading the album.'']"
    using tA nA by simp_all
  have outB: "downloads (handleDownloadAlbum (\<lambda>imageData. Some ''album'') ?B)
        = [(''album'', ''past-forward-album.jpg'')]"
      "alerts (handleDownloadAlbum (\<lambda>imageData. Some ''album'') ?B) = []"
    using tB nB by simp_all
  have outN: "downloads (handleDownloadAlbum (\<lambda>imageData. None) ?B) = []"
      "alerts (handleDownloadAlbum (\<lambda>imageData. None) ?B)
        = [''Sorry, there was an error creating your album. Please try again.'']"
    using tN nB by simp_all
  show ?thesis
    unfolding sA sB using nA nB inv lack outA outB outN by (intro conjI)
qed

section \<open>Who writes the rate log\<close>

lemma storage_migrate: "storage (snd (migrate items w)) = storage w"
proof (induction items arbitrary: w)
  case Nil
  show ?case by simp
next
  case (Cons item items)
  show ?case
  proof (cases "fst (await_saveHistoryItem item w)")
    case True
    then have "migrate (item # items) w = migrate items (snd (await_saveHistoryItem item w))"
      by (cases "await_saveHistoryItem item w") simp
    then show ?thesis by (simp add: Cons.IH await_saveHistoryItem_frame)
  next
    case False
    then have "migrate (item # items) w = (False, snd (await_saveHistoryItem item w))"
      by (cases "await_saveHistoryItem item w") simp
    then show ?thesis by (simp add: await_saveHistoryItem_frame)
  qed
qed

lemma storage_autoSave: "storage (autoSave now w) = storage w"
proof -
  have "storage (case await_saveHistoryItem item v of
                   (True, w2) \<Rightarrow> w2
                 | (False, w2) \<Rightarrow> w2\<lparr>console := console w2 @ [line]\<rparr>) = storage v" for item v line
    using await_saveHistoryItem_frame(2) [of item v]
    by (cases "await_saveHistoryItem item v") (auto split: bool.splits)
  then show ?thesis
    by (simp add: autoSave_def Let_def split: option.splits)
qed

lemma storage_processDecade: "storage (processDecade photo c w) = storage w"
  by (cases c) (simp add: processDecade_def setGeneratedImage_def Let_def split: call_result.splits)

lemma storage_fold_processDecade: "storage (fold (processDecade photo) cs w) = storage w"
  by (induction cs arbitrary: w) (simp_all add: storage_processDecade)

text \<open>
  C9. \<^verbatim>\<open>checkLimit\<close> is a query: whatever the storage holds, it leaves it as it is, and so
  does \<^verbatim>\<open>getHistory\<close>. \<^verbatim>\<open>recordGeneration\<close> writes the rate log, and only the rate log. No
  handler of the component touches the key of the rate log: \<^verbatim>\<open>initHistory\<close> removes the
  legacy key only, the others leave localStorage alone.
\<close>

theorem checkLimit_read_only:
  "snd (checkLimit e now R ls) = ls
   \<and> snd (getHistory ls) = ls
   \<and> flashback_history (snd (recordGeneration e now n ls)) = flashback_history ls
   \<and> (\<forall>tlog. fst (getHistory ls) = JArray tlog \<longrightarrow>
          generation_history (snd (recordGeneration e now n ls))
            = Some (Parses_To (JArray (filter (\<lambda>ts. now - ts < number_or (VITE_LIMIT_MINUTES e) 5 * 60 * 1000)
                                         (tlog @ replicate (nat n) now)))))
   \<and> generation_history (storage (initHistory w)) = generation_history (storage w)
   \<and> storage (autoSave now w) = storage w
   \<and> storage (handleGenerateClick now settled w) = storage w
   \<and> storage (handleRegenerateDecade r decade w) = storage w
   \<and> storage (handleDownloadAlbum createAlbumPage w) = storage w"
proof -
  have g: "snd (getHistory ls) = ls"
    by (simp add: getHistory_def split: option.splits stored_text.splits)
  have c: "snd (checkLimit e now R ls) = ls"
    using g by (cases "getHistory ls") (simp add: checkLimit_def Let_def split: json.splits)
  have r1: "flashback_history (snd (recordGeneration e now n ls)) = flashback_history ls"
    using g by (cases "getHistory ls") (simp add: recordGeneration_def Let_def split: json.splits)
  have r2: "generation_history (snd (recordGeneration e now n ls))
            = Some (Parses_To (JArray (filter (\<lambda>ts. now - ts < number_or (VITE_LIMIT_MINUTES e) 5 * 60 * 1000)
                                         (tlog @ replicate (nat n) now))))"
    if "fst (getHistory ls) = JArray tlog" for tlog
    using that by (cases "getHistory ls") (simp add: recordGeneration_def Let_def)
  have "generation_history (storage (case migrate items w of
            (True, w') \<Rightarrow> w'\<lparr>storage := (storage w')\<lparr>flashback_history := None\<rparr>,
                               console := console w' @ [line1]\<rparr>
          | (False, w') \<Rightarrow> w'\<lparr>console := console w' @ [line2]\<rparr>))
        = generation_history (storage w)" for items line1 line2
    using storage_migrate [of items w]
    by (cases "migrate items w") (auto split: bool.splits)
  then have i: "generation_history (storage (initHistory w)) = generation_history (storage w)"
    by (simp add: initHistory_def Let_def split: option.splits stored_text.splits)
  have a: "storage (autoSave now w) = storage w"
    by (rule storage_autoSave)
  have h: "storage (handleGenerateClick now settled w) = storage w"
    by (simp add: handleGenerateClick_def Let_def storage_fold_processDecade split: option.splits)
  have rg: "storage (handleRegenerateDecade r decade w) = storage w"
    by (simp add: handleRegenerateDecade_def setGeneratedImage_def Let_def
        split: option.splits call_result.splits)
  have d: "storage (handleDownloadAlbum createAlbumPage w) = storage w"
    by (simp add: handleDownloadAlbum_def Let_def split: option.splits)
  show ?thesis using g c r1 r2 i a h rg d by blast
qed

theorem checkLimit_read_only_witness:
  "fst (getHistory \<lparr>generation_history = Some (Parses_To (JArray [7])), flashback_history = None\<rparr>)
     = JArray [7]
   \<and> snd (checkLimit \<lparr>VITE_MAX_PHOTOS = None, VITE_LIMIT_MINUTES = None\<rparr> 1000 2
          \<lparr>generation_history = Some (Parses_To (JArray [7])), flashback_history = None\<rparr>)
     = \<lparr>generation_history = Some (Parses_To (JArray [7])), flashback_history = None\<rparr>
   \<and> generation_history (snd (recordGeneration \<lparr>VITE_MAX_PHOTOS = None, VITE_LIMIT_MINUTES = None\<rparr> 1000 2
          \<lparr>generation_history = Some (Parses_To (JArray [7])), flashback_history = None\<rparr>))
     = Some (Parses_To (JArray [7, 1000, 1000]))"
proof -
  let ?ls = "\<lparr>generation_history = Some (Parses_To (JArray [7])), flashback_history = None\<rparr>"
  have h: "fst (getHistory ?ls) = JArray [7]" by (simp add: getHistory_def)
  show ?thesis
    using h checkLimit_read_only [of "\<lparr>VITE_MAX_PHOTOS = None, VITE_LIMIT_MINUTES = None\<rparr>" 1000 2 ?ls 2]
    by (simp add: number_or_def numeral_2_eq_2)
qed

end
